theory Spec2Isabelle
  imports Main "HOL-Library.AList" "HOL-Library.Sublist"
begin

section \<open>Python values and exceptions\<close>

text \<open>
  Exceptions are values of the type \<open>error\<close>; a computation that may raise returns
  \<open>error + 'a\<close>, with \<open>Inl\<close> for the raised exception. Every constructor stands for
  a Python exception class derived from \<open>Exception\<close>, so that \<^verbatim>\<open>except Exception:\<close> and
  a bare \<^verbatim>\<open>except:\<close> catch every value of the type. \<open>LibraryError\<close> is any exception
  raised inside a collaborator (the LDAP library, the template engine, the YAML parser,
  the file system).
\<close>

datatype error =
    NameError string
  | UnboundLocalError string
  | KeyError string
  | IndexError
  | TypeError
  | ValueError
  | SaltInvocationError string
  | CommandExecutionError string
  | LibraryError string

text \<open>
  Values of a search specification as the YAML document gives them: \<open>None\<close>, a
  boolean, an integer, a string or a list of strings.
\<close>

datatype cval = CNone | CBool bool | CInt int | CStr string | CList "string list"

text \<open>Python truthiness (\<^verbatim>\<open>if x:\<close>, \<^verbatim>\<open>not x\<close>) of such a value.\<close>

fun truthy :: "cval \<Rightarrow> bool" where
  "truthy CNone = False"
| "truthy (CBool b) = b"
| "truthy (CInt i) = (i \<noteq> 0)"
| "truthy (CStr s) = (s \<noteq> [])"
| "truthy (CList xs) = (xs \<noteq> [])"

text \<open>
  \<^verbatim>\<open>key in attrs\<close> for a string \<open>key\<close>: membership in a list, containment in a
  string, \<open>TypeError\<close> on a value that is not iterable.
\<close>

fun py_in :: "string \<Rightarrow> cval \<Rightarrow> error + bool" where
  "py_in key (CList xs) = Inr (key \<in> set xs)"
| "py_in key (CStr s) = Inr (sublist key s)"
| "py_in key CNone = Inl TypeError"
| "py_in key (CBool b) = Inl TypeError"
| "py_in key (CInt i) = Inl TypeError"

text \<open>\<^verbatim>\<open>s.split(sep)\<close> for a separator of one character.\<close>

fun str_split :: "char \<Rightarrow> string \<Rightarrow> string list" where
  "str_split sep [] = [[]]"
| "str_split sep (c # cs) =
     (if c = sep then [] # str_split sep cs
      else (case str_split sep cs of
              [] \<Rightarrow> [[c]]
            | p # ps \<Rightarrow> (c # p) # ps))"

section \<open>The pillar source: \<^verbatim>\<open>src/pillar/pillar_ldap.py\<close>\<close>

text \<open>
  A search specification \<open>conf\<close> is a dictionary from option names to values. The
  attribute mapping of a directory entry maps attribute names to their ordered lists
  of string values; it is an association list in the order in which
  \<^verbatim>\<open>for key in data\<close> visits the keys. The flattened result maps a key to the string
  \<open>v\<close> of a \<open>k=v\<close> item, to a list of values, or to \<open>None\<close>
  (what \<^verbatim>\<open>data.get(key)\<close> returns for a missing key).
\<close>

type_synonym conf = "(string \<times> cval) list"

type_synonym attrmap = "(string \<times> string list) list"

datatype pval = VNone | VStr string | VList "string list"

type_synonym pillar = "(string \<times> pval) list"

text \<open>\<^verbatim>\<open>_config(name, conf)\<close>: the value of \<open>name\<close>, \<open>None\<close> on \<open>KeyError\<close>.\<close>

definition config :: "string \<Rightarrow> conf \<Rightarrow> cval" where
  "config name conf = (case map_of conf name of None \<Rightarrow> CNone | Some value \<Rightarrow> value)"

text \<open>\<^verbatim>\<open>data.get(key)\<close>.\<close>

definition data_get :: "attrmap \<Rightarrow> string \<Rightarrow> pval" where
  "data_get data key = (case map_of data key of None \<Rightarrow> VNone | Some vals \<Rightarrow> VList vals)"

text \<open>
  The inner loop of \<^verbatim>\<open>_result_to_dict\<close>, \<^verbatim>\<open>for item in data.get(key)\<close>, over the items
  still to visit. \<^verbatim>\<open>k, v = item.split('=')\<close> raises \<open>ValueError\<close> unless the split has
  exactly two parts.
\<close>

fun items_loop :: "attrmap \<Rightarrow> string \<Rightarrow> string list \<Rightarrow> pillar \<Rightarrow> error + pillar" where
  "items_loop data key [] result = Inr result"
| "items_loop data key (item # items) result =
     (if CHR ''='' \<in> set item then
        (case str_split (CHR ''='') item of
           [k, v] \<Rightarrow> items_loop data key items (AList.update k (VStr v) result)
         | _ \<Rightarrow> Inl ValueError)
      else items_loop data key items (AList.update key (data_get data key) result))"

text \<open>
  The outer loop, \<^verbatim>\<open>for key in data\<close>, over the keys still to visit. Iterating over
  \<open>None\<close> (a key without a value) raises \<open>TypeError\<close>.
\<close>

fun keys_loop :: "attrmap \<Rightarrow> cval \<Rightarrow> string list \<Rightarrow> pillar \<Rightarrow> error + pillar" where
  "keys_loop data attrs [] result = Inr result"
| "keys_loop data attrs (key # keys) result =
     (case py_in key attrs of
        Inl e \<Rightarrow> Inl e
      | Inr True \<Rightarrow>
          (case map_of data key of
             None \<Rightarrow> Inl TypeError
           | Some vals \<Rightarrow>
               (case items_loop data key vals result of
                  Inl e \<Rightarrow> Inl e
                | Inr result' \<Rightarrow> keys_loop data attrs keys result'))
      | Inr False \<Rightarrow> keys_loop data attrs keys (AList.update key (data_get data key) result))"

text \<open>\<^verbatim>\<open>_result_to_dict(data, attrs)\<close>.\<close>

definition result_to_dict :: "attrmap \<Rightarrow> cval \<Rightarrow> error + pillar" where
  "result_to_dict data attrs =
     keys_loop data (if \<not> truthy attrs then CList [] else attrs) (map fst data) []"

text \<open>
  The names bound at module level in \<^verbatim>\<open>pillar_ldap.py\<close> (its imports, assignments and
  functions) and the names the loader injects. A name that is neither local nor in this
  list nor a builtin raises \<open>NameError\<close> when it is evaluated.
\<close>

definition module_names :: "string list" where
  "module_names =
     [''os'', ''logging'', ''traceback'', ''salt'', ''string_types'', ''yaml'',
      ''Environment'', ''FileSystemLoader'', ''ldap'', ''has_ldap'', ''log'',
      ''__virtual__'', ''_render_template'', ''_config'', ''_result_to_dict'',
      ''_do_search'', ''ext_pillar'', ''__salt__'', ''__grains__'', ''__opts__'']"

text \<open>\<^verbatim>\<open>raise SaltInvocationError(msg)\<close>: the exception that the statement raises.\<close>

definition raise_SaltInvocationError :: "string \<Rightarrow> error" where
  "raise_SaltInvocationError msg =
     (if ''SaltInvocationError'' \<in> set module_names then SaltInvocationError msg
      else NameError ''SaltInvocationError'')"

text \<open>
  What \<^verbatim>\<open>__salt__['ldap.search'](filter, dn, scope, attrs, **connargs)\<close> returns: a
  dictionary whose \<open>results\<close> is the list of matched entries, each a pair of a
  distinguished name and an attribute mapping.
\<close>

record response =
  results :: "(string \<times> attrmap) list"

text \<open>
  The collaborators of the pillar source: the file system test
  \<^verbatim>\<open>os.path.isfile\<close>; the body of the \<^verbatim>\<open>with open(config_file)\<close> block, which renders
  the template and parses it (\<^verbatim>\<open>yaml.safe_load(config) or {}\<close>) or raises; and the
  directory search of the platform. The parsed document is a dictionary whose values
  are search specifications or plain values, the shape of the configuration file.
\<close>

datatype oval = OVal cval | OConf conf

type_synonym opts = "(string \<times> oval) list"

record env =
  isfile :: "string \<Rightarrow> bool"
  load_config :: "string \<Rightarrow> error + opts"
  ldap_search :: "cval \<Rightarrow> cval \<Rightarrow> cval \<Rightarrow> cval \<Rightarrow> conf \<Rightarrow> error + response"

text \<open>\<^verbatim>\<open>response['results'][0][1]\<close>; \<open>IndexError\<close> when no entry matched.\<close>

definition first_attrs :: "response \<Rightarrow> error + attrmap" where
  "first_attrs r = (case results r of [] \<Rightarrow> Inl IndexError | entry # _ \<Rightarrow> Inr (snd entry))"

text \<open>
  The connection arguments that \<^verbatim>\<open>_do_search\<close> builds first:
  \<^verbatim>\<open>connargs[name] = _config(name, conf)\<close> for the five names.
\<close>

definition search_connargs :: "conf \<Rightarrow> conf" where
  "search_connargs conf =
     map (\<lambda>name. (name, config name conf)) [''server'', ''port'', ''tls'', ''binddn'', ''bindpw'']"

text \<open>
  The expression inside the \<^verbatim>\<open>try\<close> of \<^verbatim>\<open>_do_search\<close>,
  \<^verbatim>\<open>__salt__['ldap.search'](filter, dn, scope, attrs, **connargs)['results'][0][1]\<close>,
  with \<open>dn\<close>, \<open>scope\<close> and \<open>attrs\<close> read from \<open>conf\<close> by \<^verbatim>\<open>_config\<close>.
\<close>

definition raw_search :: "env \<Rightarrow> conf \<Rightarrow> cval \<Rightarrow> error + attrmap" where
  "raw_search env conf filter' =
     (let connargs = search_connargs conf;
          dn = config ''dn'' conf;
          scope = config ''scope'' conf;
          attrs = config ''attrs'' conf
      in case ldap_search env filter' dn scope attrs connargs of
           Inl e \<Rightarrow> Inl e
         | Inr r \<Rightarrow> first_attrs r)"

text \<open>
  \<^verbatim>\<open>_do_search(conf)\<close>. A missing \<open>filter\<close> raises before the search. The
  \<^verbatim>\<open>try\<close> around the search catches every exception and returns the empty
  dictionary. After it, \<open>result\<close> is assigned only when \<open>raw_result\<close> is truthy;
  reading it unassigned raises \<open>UnboundLocalError\<close>. The call of
  \<^verbatim>\<open>_result_to_dict\<close> is outside the \<^verbatim>\<open>try\<close>, so its exception propagates.
\<close>

definition do_search :: "env \<Rightarrow> conf \<Rightarrow> error + pillar" where
  "do_search env conf =
     (case map_of conf ''filter'' of
        None \<Rightarrow> Inl (raise_SaltInvocationError ''missing filter'')
      | Some filter' \<Rightarrow>
          (let attrs = config ''attrs'' conf
           in case raw_search env conf filter' of
                Inl e \<Rightarrow> Inr []
              | Inr raw_result \<Rightarrow>
                  (if raw_result \<noteq> [] then result_to_dict raw_result attrs
                   else Inl (UnboundLocalError ''result''))))"

text \<open>\<^verbatim>\<open>data.update(result)\<close>: every entry of \<open>result\<close> is assigned in \<open>data\<close>.\<close>

definition dict_update :: "pillar \<Rightarrow> pillar \<Rightarrow> pillar" where
  "dict_update data result = fold (\<lambda>(k, v). AList.update k v) result data"

text \<open>
  Iterating over the value of \<open>search_order\<close>: the elements of a list, the characters
  of a string, the keys of a dictionary; \<open>TypeError\<close> otherwise.
\<close>

fun py_iter :: "oval \<Rightarrow> error + string list" where
  "py_iter (OVal (CList xs)) = Inr xs"
| "py_iter (OVal (CStr s)) = Inr (map (\<lambda>c. [c]) s)"
| "py_iter (OConf d) = Inr (map fst d)"
| "py_iter (OVal CNone) = Inl TypeError"
| "py_iter (OVal (CBool b)) = Inl TypeError"
| "py_iter (OVal (CInt i)) = Inl TypeError"

text \<open>
  The first two statements of the loop body of \<^verbatim>\<open>ext_pillar\<close>:
  \<^verbatim>\<open>config = opts[source]\<close> and \<^verbatim>\<open>result = _do_search(config)\<close>. A \<open>config\<close> that is
  not a dictionary raises \<open>TypeError\<close> at its first subscript by a name.
\<close>

definition source_result :: "env \<Rightarrow> opts \<Rightarrow> string \<Rightarrow> error + pillar" where
  "source_result env opts source =
     (case map_of opts source of
        None \<Rightarrow> Inl (KeyError source)
      | Some (OVal v) \<Rightarrow> Inl TypeError
      | Some (OConf conf) \<Rightarrow> do_search env conf)"

text \<open>The loop \<^verbatim>\<open>for source in opts['search_order']\<close> over the sources still to visit.\<close>

fun sources_loop :: "env \<Rightarrow> opts \<Rightarrow> string list \<Rightarrow> pillar \<Rightarrow> error + pillar" where
  "sources_loop env opts [] data = Inr data"
| "sources_loop env opts (source # sources) data =
     (case source_result env opts source of
        Inl e \<Rightarrow> Inl e
      | Inr result \<Rightarrow>
          sources_loop env opts sources (if result \<noteq> [] then dict_update data result else data))"

text \<open>
  \<^verbatim>\<open>ext_pillar(config_file)\<close>. The local variable \<open>opts\<close> is bound only when the file
  exists and the \<^verbatim>\<open>with\<close> block assigned it; \<open>None\<close> below is the unbound variable,
  and reading it raises \<open>UnboundLocalError\<close>.
\<close>

definition ext_pillar :: "env \<Rightarrow> string \<Rightarrow> error + pillar" where
  "ext_pillar env config_file =
     (let opts =
            (if isfile env config_file then
               (case load_config env config_file of
                  Inl e \<Rightarrow> None
                | Inr loaded \<Rightarrow> Some (AList.update ''conf_file'' (OVal (CStr config_file)) loaded))
             else None)
      in case opts of
           None \<Rightarrow> Inl (UnboundLocalError ''opts'')
         | Some opts \<Rightarrow>
             (case map_of opts ''search_order'' of
                None \<Rightarrow> Inl (KeyError ''search_order'')
              | Some order \<Rightarrow>
                  (case py_iter order of
                     Inl e \<Rightarrow> Inl e
                   | Inr sources \<Rightarrow> sources_loop env opts sources [])))"

section \<open>The authenticator: \<^verbatim>\<open>src/auth/ldap.py\<close>\<close>

text \<open>
  The connection dictionary \<open>connargs\<close> and the module-level settings \<open>__opts__\<close>,
  which has the five connection options and three more. The option \<open>filter\<close> is the
  field \<open>filter_opt\<close>.
\<close>

record connargs =
  server :: string
  port :: string
  tls :: bool
  binddn :: string
  bindpw :: string

record auth_opts = connargs +
  scope :: int
  basedn :: string
  filter_opt :: string

definition default_opts :: auth_opts where
  "default_opts =
     \<lparr>server = ''localhost'', port = ''389'', tls = False,
      binddn = ''uid=admin,o=acme,c=gb'', bindpw = ''sssssh'',
      scope = 2, basedn = ''o=acme,c=gb'', filter_opt = ''emailAddress={{ username }}''\<rparr>"

text \<open>
  The collaborators are the LDAP library and the template engine. Every call of the
  library is recorded, in order, in a history of events; what a call returns may depend
  on its arguments and on the history before it, so that the directory is an arbitrary
  stateful service. \<open>'c\<close> is the type of connection objects.
\<close>

datatype event =
    Initialize string
  | SetOption
  | StartTLS
  | SimpleBind string string
  | Search string int string

type_synonym history = "event list"

record 'c ldap_lib =
  initialize :: "history \<Rightarrow> string \<Rightarrow> error + 'c"
  set_option :: "history \<Rightarrow> 'c \<Rightarrow> error option"
  start_tls_s :: "history \<Rightarrow> 'c \<Rightarrow> error option"
  simple_bind_s :: "history \<Rightarrow> 'c \<Rightarrow> string \<Rightarrow> string \<Rightarrow> error option"
  search_s :: "history \<Rightarrow> 'c \<Rightarrow> string \<Rightarrow> int \<Rightarrow> string \<Rightarrow> error + (string \<times> attrmap) list"
  render :: "string \<Rightarrow> string \<Rightarrow> error + string"

text \<open>The exception that \<^verbatim>\<open>_LDAPConnection.__init__\<close> raises for any failure in its body.\<close>

definition bind_failed :: "connargs \<Rightarrow> error" where
  "bind_failed a =
     CommandExecutionError
       (''Failed to bind to LDAP server '' @ server a @ '':'' @ port a @ '' as '' @ binddn a)"

text \<open>
  \<^verbatim>\<open>_LDAPConnection(**connargs).LDAP\<close>: the constructor initialises a connection, sets
  the referral option, starts TLS when asked to, and binds with \<open>binddn\<close> and
  \<open>bindpw\<close>. Any exception of these calls is replaced by \<open>bind_failed\<close>. The
  assignment to \<open>protocol_version\<close> is an attribute store and calls nothing.
\<close>

definition LDAPConnection :: "'c ldap_lib \<Rightarrow> connargs \<Rightarrow> history \<Rightarrow> (error + 'c) \<times> history" where
  "LDAPConnection L a h =
     (let uri = ''ldap://'' @ server a @ '':'' @ port a;
          h1 = h @ [Initialize uri]
      in case initialize L h uri of
           Inl e \<Rightarrow> (Inl (bind_failed a), h1)
         | Inr c \<Rightarrow>
             (let h2 = h1 @ [SetOption]
              in case set_option L h1 c of
                   Some e \<Rightarrow> (Inl (bind_failed a), h2)
                 | None \<Rightarrow>
                     (let started = (if tls a then start_tls_s L h2 c else None);
                          h3 = (if tls a then h2 @ [StartTLS] else h2)
                      in case started of
                           Some e \<Rightarrow> (Inl (bind_failed a), h3)
                         | None \<Rightarrow>
                             (let h4 = h3 @ [SimpleBind (binddn a) (bindpw a)]
                              in case simple_bind_s L h3 c (binddn a) (bindpw a) of
                                   Some e \<Rightarrow> (Inl (bind_failed a), h4)
                                 | None \<Rightarrow> (Inr c, h4)))))"

text \<open>The connection dictionary built from \<open>__opts__\<close> at the start of \<^verbatim>\<open>auth\<close>.\<close>

definition service_connargs :: "auth_opts \<Rightarrow> connargs" where
  "service_connargs opts =
     \<lparr>server = server opts, port = port opts, tls = tls opts,
      binddn = binddn opts, bindpw = bindpw opts\<rparr>"

text \<open>
  \<^verbatim>\<open>auth(username, password)\<close>, from a history \<open>h\<close>: the result (or the exception
  that propagates) and the history after the call. The bare \<^verbatim>\<open>except:\<close> around the
  second connection turns every exception into \<open>False\<close>.
\<close>

definition auth :: "'c ldap_lib \<Rightarrow> auth_opts \<Rightarrow> string \<Rightarrow> string \<Rightarrow> history \<Rightarrow> (error + bool) \<times> history" where
  "auth L opts username password h =
     (case render L (filter_opt opts) username of
        Inl e \<Rightarrow> (Inl e, h)
      | Inr filter' \<Rightarrow>
          (let dn = basedn opts;
               scope' = scope opts;
               connargs = service_connargs opts
           in case LDAPConnection L connargs h of
                (Inl e, h1) \<Rightarrow> (Inl e, h1)
              | (Inr ldap, h1) \<Rightarrow>
                  (let h2 = h1 @ [Search dn scope' filter']
                   in case search_s L h1 ldap dn scope' filter' of
                        Inl e \<Rightarrow> (Inl e, h2)
                      | Inr result \<Rightarrow>
                          (if length result < 1 then (Inr False, h2)
                           else if length result > 1 then (Inr False, h2)
                           else (case result of
                                   [] \<Rightarrow> (Inl IndexError, h2)
                                 | entry # _ \<Rightarrow>
                                     (let authdn = fst entry;
                                          connargs' = connargs\<lparr>binddn := authdn, bindpw := password\<rparr>
                                      in case LDAPConnection L connargs' h2 of
                                           (Inl e, h3) \<Rightarrow> (Inr False, h3)
                                         | (Inr ldap', h3) \<Rightarrow> (Inr True, h3)))))))"

section \<open>Notions used in the statements and proofs\<close>

text \<open>
  A value of the form \<open>key=value\<close> with one \<open>=\<close>: the item is \<open>k\<close>, the
  character \<open>=\<close> and \<open>v\<close>, and neither \<open>k\<close> nor \<open>v\<close> contains \<open>=\<close>.
\<close>

definition key_value :: "string \<Rightarrow> string \<Rightarrow> string \<Rightarrow> bool" where
  "key_value item k v =
     (item = k @ ''='' @ v \<and> CHR ''='' \<notin> set k \<and> CHR ''='' \<notin> set v)"

text \<open>
  The assignments \<^verbatim>\<open>result[k] = v\<close> that the two loops of \<^verbatim>\<open>_result_to_dict\<close> perform,
  in order, when no item raises; \<open>assign_all\<close> performs a list of assignments.
\<close>

fun item_writes :: "attrmap \<Rightarrow> string \<Rightarrow> string list \<Rightarrow> pillar" where
  "item_writes data key [] = []"
| "item_writes data key (item # items) =
     (if CHR ''='' \<in> set item then
        (case str_split (CHR ''='') item of
           [k, v] \<Rightarrow> [(k, VStr v)]
         | _ \<Rightarrow> [])
      else [(key, data_get data key)]) @ item_writes data key items"

fun key_writes :: "attrmap \<Rightarrow> string list \<Rightarrow> string list \<Rightarrow> pillar" where
  "key_writes data as [] = []"
| "key_writes data as (key # keys) =
     (if key \<in> set as then
        (case map_of data key of None \<Rightarrow> [] | Some vals \<Rightarrow> item_writes data key vals)
      else [(key, data_get data key)]) @ key_writes data as keys"

definition assign_all :: "pillar \<Rightarrow> pillar \<Rightarrow> pillar" where
  "assign_all ws result = fold (\<lambda>(k, v). AList.update k v) ws result"

section \<open>Example inputs\<close>

text \<open>
  A directory with a few host entries, and a pillar configuration whose sources search
  for them. \<open>example_opts order\<close> is the parsed configuration file with the search
  order \<open>order\<close>.
\<close>

text \<open>The path of the configuration file that exists in the example.\<close>

definition example_path :: string where
  "example_path = ''/etc/salt/pillar_ldap.yaml''"

definition example_search :: "cval \<Rightarrow> cval \<Rightarrow> cval \<Rightarrow> cval \<Rightarrow> conf \<Rightarrow> error + response" where
  "example_search filter' dn scope' attrs connargs =
     (if filter' = CStr ''(cn=host1)'' then
        Inr \<lparr>results = [(''cn=host1,ou=hosts,o=acme'',
                [(''saltKeyValue'', [''ntpserver=ntp.acme.local'', ''role=web'']),
                 (''cn'', [''host1''])])]\<rparr>
      else if filter' = CStr ''(cn=defaults)'' then
        Inr \<lparr>results = [(''cn=defaults,ou=hosts,o=acme'',
                [(''saltKeyValue'', [''ntpserver=ntp.default.local''])])]\<rparr>
      else if filter' = CStr ''(cn=site)'' then
        Inr \<lparr>results = [(''cn=site,ou=hosts,o=acme'',
                [(''saltKeyValue'', [''ntpserver=ntp.site.local''])])]\<rparr>
      else if filter' = CStr ''(cn=empty)'' then
        Inr \<lparr>results = [(''cn=empty,ou=hosts,o=acme'', [])]\<rparr>
      else if filter' = CStr ''(cn=bad)'' then
        Inr \<lparr>results = [(''cn=bad,ou=hosts,o=acme'', [(''saltKeyValue'', [''a=b=c''])])]\<rparr>
      else if filter' = CStr ''(cn=down)'' then Inl (LibraryError ''SERVER_DOWN'')
      else Inr \<lparr>results = []\<rparr>)"

definition example_conf :: "string \<Rightarrow> conf" where
  "example_conf name =
     [(''filter'', CStr (''(cn='' @ name @ '')'')), (''dn'', CStr ''ou=hosts,o=acme''),
      (''attrs'', CList [''saltKeyValue''])]"

definition example_opts :: "string list \<Rightarrow> opts" where
  "example_opts order =
     [(''search_order'', OVal (CList order)),
      (''defaults'', OConf (example_conf ''defaults'')),
      (''site'', OConf (example_conf ''site'')),
      (''host1'', OConf (example_conf ''host1'')),
      (''empty'', OConf (example_conf ''empty'')),
      (''bad'', OConf (example_conf ''bad'')),
      (''down'', OConf (example_conf ''down'')),
      (''nofilter'', OConf [(''dn'', CStr ''ou=hosts,o=acme'')])]"

definition example_env :: "string list \<Rightarrow> env" where
  "example_env order =
     \<lparr>isfile = (\<lambda>path. path = example_path),
      load_config = (\<lambda>path. Inr (example_opts order)),
      ldap_search = example_search\<rparr>"

text \<open>
  An LDAP library for the authenticator: the service account and the user
  \<open>alice\<close> can bind with their passwords; one entry matches the address of
  \<open>alice\<close>, two match \<open>twin@x.com\<close> and none any other address.
\<close>

definition example_bind :: "string \<Rightarrow> string \<Rightarrow> error option" where
  "example_bind dn password =
     (if dn = ''uid=admin,o=acme,c=gb'' \<and> password = ''sssssh'' then None
      else if dn = ''uid=alice,o=acme,c=gb'' \<and> password = ''secret'' then None
      else Some (LibraryError ''INVALID_CREDENTIALS''))"

definition example_entries :: "string \<Rightarrow> (string \<times> attrmap) list" where
  "example_entries filter' =
     (if filter' = ''emailAddress=alice@x.com'' then [(''uid=alice,o=acme,c=gb'', [])]
      else if filter' = ''emailAddress=twin@x.com'' then
        [(''uid=twin1,o=acme,c=gb'', []), (''uid=twin2,o=acme,c=gb'', [])]
      else [])"

definition example_ldap :: "nat ldap_lib" where
  "example_ldap =
     \<lparr>initialize = (\<lambda>h uri. Inr 0),
      set_option = (\<lambda>h c. None),
      start_tls_s = (\<lambda>h c. None),
      simple_bind_s = (\<lambda>h c dn password. example_bind dn password),
      search_s = (\<lambda>h c dn scope' filter'. Inr (example_entries filter')),
      render = (\<lambda>template username. Inr (''emailAddress='' @ username))\<rparr>"

section \<open>String splitting\<close>

lemma str_split_nonempty: "str_split c s \<noteq> []"
  by (induction s) (auto split: list.splits)

lemma str_split_no_sep: "c \<notin> set s \<Longrightarrow> str_split c s = [s]"
  by (induction s) auto

lemma str_split_at: "c \<notin> set k \<Longrightarrow> str_split c (k @ c # rest) = k # str_split c rest"
  by (induction k) auto

lemma length_str_split: "length (str_split c s) = Suc (count_list s c)"
  by (induction s) (auto split: list.splits simp: str_split_nonempty)

lemma str_split_single: "str_split c s = [v] \<Longrightarrow> s = v \<and> c \<notin> set v"
proof -
  assume a: "str_split c s = [v]"
  have "length (str_split c s) = Suc (count_list s c)" by (rule length_str_split)
  with a have "count_list s c = 0" by simp
  then have "c \<notin> set s" by (simp add: count_list_0_iff)
  with a show ?thesis by (simp add: str_split_no_sep)
qed

lemma str_split_pair: "str_split c s = [k, v] \<Longrightarrow> s = k @ c # v \<and> c \<notin> set k \<and> c \<notin> set v"
proof (induction s arbitrary: k)
  case Nil
  then show ?case by simp
next
  case (Cons x xs)
  show ?case
  proof (cases "x = c")
    case True
    with Cons.prems have "k = []" and "str_split c xs = [v]" by simp_all
    with str_split_single [of c xs v] True show ?thesis by simp
  next
    case False
    with Cons.prems obtain p where k: "k = x # p" and rest: "str_split c xs = [p, v]"
      by (auto split: list.splits)
    from Cons.IH [OF rest] False k show ?thesis by simp
  qed
qed

lemma str_split_key_value: "str_split (CHR ''='') item = [k, v] \<longleftrightarrow> key_value item k v"
  unfolding key_value_def
proof
  assume "str_split (CHR ''='') item = [k, v]"
  from str_split_pair [OF this] show "item = k @ ''='' @ v \<and> CHR ''='' \<notin> set k \<and> CHR ''='' \<notin> set v"
    by simp
next
  assume "item = k @ ''='' @ v \<and> CHR ''='' \<notin> set k \<and> CHR ''='' \<notin> set v"
  then show "str_split (CHR ''='') item = [k, v]"
    by (simp add: str_split_at str_split_no_sep)
qed

lemma key_value_has_sep: "key_value item k v \<Longrightarrow> CHR ''='' \<in> set item"
  by (simp add: key_value_def)

section \<open>Flattening as a list of assignments\<close>

lemma assign_all_Nil: "assign_all [] r = r"
  by (simp add: assign_all_def)

lemma assign_all_Cons: "assign_all ((k, v) # ws) r = assign_all ws (AList.update k v r)"
  by (simp add: assign_all_def)

lemma assign_all_append: "assign_all (xs @ ys) r = assign_all ys (assign_all xs r)"
  by (simp add: assign_all_def)

lemma map_of_assign_all:
  "map_of (assign_all ws r) x = (case map_of (rev ws) x of None \<Rightarrow> map_of r x | Some v \<Rightarrow> Some v)"
proof (induction ws arbitrary: r)
  case Nil
  show ?case by (simp add: assign_all_Nil)
next
  case (Cons p ws)
  obtain k v where p: "p = (k, v)" by (cases p)
  show ?case
    by (simp add: p assign_all_Cons Cons.IH update_conv' map_add_def split: option.splits)
qed

lemma items_loop_writes:
  "items_loop data key items r = Inr r' \<Longrightarrow> r' = assign_all (item_writes data key items) r"
proof (induction items arbitrary: r)
  case Nil
  then show ?case by (simp add: assign_all_Nil)
next
  case (Cons item items)
  show ?case
  proof (cases "CHR ''='' \<in> set item")
    case True
    with Cons.prems obtain k v where kv: "str_split (CHR ''='') item = [k, v]"
      and rest: "items_loop data key items (AList.update k (VStr v) r) = Inr r'"
      by (auto split: list.splits)
    from Cons.IH [OF rest] show ?thesis
      by (simp add: True kv assign_all_Cons)
  next
    case False
    with Cons.prems have rest:
      "items_loop data key items (AList.update key (data_get data key) r) = Inr r'"
      by simp
    from Cons.IH [OF rest] show ?thesis
      by (simp add: False assign_all_Cons)
  qed
qed

lemma keys_loop_writes:
  "keys_loop data (CList as) keys r = Inr r' \<Longrightarrow> r' = assign_all (key_writes data as keys) r"
proof (induction keys arbitrary: r)
  case Nil
  then show ?case by (simp add: assign_all_Nil)
next
  case (Cons key keys)
  show ?case
  proof (cases "key \<in> set as")
    case True
    with Cons.prems obtain vals r1 where vals: "map_of data key = Some vals"
      and inner: "items_loop data key vals r = Inr r1"
      and rest: "keys_loop data (CList as) keys r1 = Inr r'"
      by (auto split: option.splits sum.splits)
    from Cons.IH [OF rest] items_loop_writes [OF inner] show ?thesis
      by (simp add: True vals assign_all_append)
  next
    case False
    with Cons.prems have rest:
      "keys_loop data (CList as) keys (AList.update key (data_get data key) r) = Inr r'"
      by simp
    from Cons.IH [OF rest] show ?thesis
      by (simp add: False assign_all_Cons)
  qed
qed

lemma in_item_writes:
  "(x, w) \<in> set (item_writes data key items) \<longleftrightarrow>
     (\<exists>item \<in> set items.
        (CHR ''='' \<in> set item \<and> (\<exists>v. str_split (CHR ''='') item = [x, v] \<and> w = VStr v)) \<or>
        (CHR ''='' \<notin> set item \<and> x = key \<and> w = data_get data key))"
  by (induction items) (auto split: list.splits)

lemma in_key_writes:
  "(x, w) \<in> set (key_writes data as keys) \<longleftrightarrow>
     (\<exists>key \<in> set keys.
        (key \<in> set as \<and> (\<exists>vals. map_of data key = Some vals \<and> (x, w) \<in> set (item_writes data key vals))) \<or>
        (key \<notin> set as \<and> x = key \<and> w = data_get data key))"
  by (induction keys) (auto split: option.splits)

lemma map_of_rev_unwritten: "x \<notin> fst ` set ws \<Longrightarrow> map_of (rev ws) x = None"
  by (simp add: map_of_eq_None_iff)

lemma map_of_rev_written:
  assumes "(x, w) \<in> set ws" and "\<forall>w'. (x, w') \<in> set ws \<longrightarrow> w' = w"
  shows "map_of (rev ws) x = Some w"
proof -
  from assms(1) have "(x, w) \<in> set (rev ws)" by simp
  then obtain y where y: "map_of (rev ws) x = Some y"
    using weak_map_of_SomeI by fastforce
  then have "(x, y) \<in> set ws" using map_of_SomeD by fastforce
  with assms(2) y show ?thesis by simp
qed

lemma result_to_dict_writes:
  assumes "result_to_dict data (CList as) = Inr res"
  shows "res = assign_all (key_writes data as (map fst data)) []"
proof -
  have "(if \<not> truthy (CList as) then CList [] else CList as) = CList as" by simp
  with assms have "keys_loop data (CList as) (map fst data) [] = Inr res"
    by (simp only: result_to_dict_def)
  then show ?thesis by (rule keys_loop_writes)
qed

lemma map_of_result:
  assumes "result_to_dict data (CList as) = Inr res"
  shows "map_of res x = map_of (rev (key_writes data as (map fst data))) x"
  by (simp add: result_to_dict_writes [OF assms] map_of_assign_all split: option.splits)

lemma map_of_Some_key: "map_of data a = Some vals \<Longrightarrow> a \<in> set (map fst data)"
  by (force dest: map_of_SomeD)

lemma item_writes_cases:
  assumes "(x, w) \<in> set (item_writes data key items)"
  shows "(\<exists>item v. item \<in> set items \<and> key_value item x v \<and> w = VStr v) \<or>
         (\<exists>item. item \<in> set items \<and> CHR ''='' \<notin> set item \<and> x = key \<and> w = data_get data key)"
proof -
  from assms obtain item where i: "item \<in> set items"
    and c: "(CHR ''='' \<in> set item \<and> (\<exists>v. str_split (CHR ''='') item = [x, v] \<and> w = VStr v)) \<or>
        (CHR ''='' \<notin> set item \<and> x = key \<and> w = data_get data key)"
    unfolding in_item_writes by blast
  from c show ?thesis
  proof
    assume "CHR ''='' \<in> set item \<and> (\<exists>v. str_split (CHR ''='') item = [x, v] \<and> w = VStr v)"
    then obtain v where "key_value item x v" "w = VStr v"
      using str_split_key_value by blast
    with i show ?thesis by blast
  next
    assume "CHR ''='' \<notin> set item \<and> x = key \<and> w = data_get data key"
    with i show ?thesis by blast
  qed
qed

lemma key_writes_cases:
  assumes "(x, w) \<in> set (key_writes data as keys)"
  shows "(\<exists>key vals item v. key \<in> set as \<and> map_of data key = Some vals \<and> item \<in> set vals \<and>
            key_value item x v \<and> w = VStr v) \<or>
         (\<exists>vals item. x \<in> set as \<and> map_of data x = Some vals \<and> item \<in> set vals \<and>
            CHR ''='' \<notin> set item \<and> w = VList vals) \<or>
         (x \<notin> set as \<and> x \<in> set keys \<and> w = data_get data x)"
proof -
  from assms obtain key where k: "key \<in> set keys"
    and c: "(key \<in> set as \<and> (\<exists>vals. map_of data key = Some vals \<and> (x, w) \<in> set (item_writes data key vals))) \<or>
        (key \<notin> set as \<and> x = key \<and> w = data_get data key)"
    unfolding in_key_writes by blast
  from c show ?thesis
  proof
    assume "key \<in> set as \<and> (\<exists>vals. map_of data key = Some vals \<and> (x, w) \<in> set (item_writes data key vals))"
    then obtain vals where ka: "key \<in> set as" and v: "map_of data key = Some vals"
      and iw: "(x, w) \<in> set (item_writes data key vals)" by blast
    from item_writes_cases [OF iw] show ?thesis
    proof
      assume "\<exists>item v. item \<in> set vals \<and> key_value item x v \<and> w = VStr v"
      with ka v show ?thesis by blast
    next
      assume "\<exists>item. item \<in> set vals \<and> CHR ''='' \<notin> set item \<and> x = key \<and> w = data_get data key"
      then obtain item where "item \<in> set vals" "CHR ''='' \<notin> set item" "x = key" "w = data_get data key"
        by blast
      moreover from this v have "w = VList vals" by (simp add: data_get_def)
      ultimately show ?thesis using ka v by blast
    qed
  next
    assume "key \<notin> set as \<and> x = key \<and> w = data_get data key"
    with k show ?thesis by blast
  qed
qed

section \<open>Flattening: composite and plain attributes\<close>

lemma composite_value_entry:
  assumes ret: "result_to_dict data (CList as) = Inr res"
    and comp: "a \<in> set as"
    and vals: "map_of data a = Some vals"
    and item: "item \<in> set vals" "key_value item k v"
    and same_key: "\<forall>b\<in>set as. \<forall>vs it v'. map_of data b = Some vs \<longrightarrow> it \<in> set vs \<longrightarrow>
                     key_value it k v' \<longrightarrow> v' = v"
    and own_name: "\<forall>vs. map_of data k = Some vs \<longrightarrow>
                     k \<in> set as \<and> (\<forall>it\<in>set vs. CHR ''='' \<in> set it)"
  shows "map_of res k = Some (VStr v)"
proof -
  let ?ws = "key_writes data as (map fst data)"
  have a_key: "a \<in> set (map fst data)" using vals by (rule map_of_Some_key)
  from item have sp: "str_split (CHR ''='') item = [k, v]" and eq: "CHR ''='' \<in> set item"
    by (simp_all add: str_split_key_value key_value_has_sep)
  have "\<exists>it\<in>set vals.
        (CHR ''='' \<in> set it \<and> (\<exists>v'. str_split (CHR ''='') it = [k, v'] \<and> VStr v = VStr v')) \<or>
        (CHR ''='' \<notin> set it \<and> k = a \<and> VStr v = data_get data a)"
    using item(1) sp eq by (intro bexI [of _ item]) simp_all
  then have iw: "(k, VStr v) \<in> set (item_writes data a vals)" unfolding in_item_writes .
  have "\<exists>key\<in>set (map fst data). (key \<in> set as \<and> (\<exists>vals'. map_of data key = Some vals' \<and>
           (k, VStr v) \<in> set (item_writes data key vals'))) \<or>
        (key \<notin> set as \<and> k = key \<and> VStr v = data_get data key)"
    using a_key comp vals iw by (intro bexI [of _ a]) simp_all
  then have w: "(k, VStr v) \<in> set ?ws" unfolding in_key_writes .
  have only: "\<forall>w'. (k, w') \<in> set ?ws \<longrightarrow> w' = VStr v"
  proof (intro allI impI)
    fix w' assume "(k, w') \<in> set ?ws"
    from key_writes_cases [OF this] show "w' = VStr v"
    proof (elim disjE exE conjE)
      fix key vs it v'
      assume "key \<in> set as" "map_of data key = Some vs" "it \<in> set vs" "key_value it k v'" "w' = VStr v'"
      with same_key show ?thesis by blast
    next
      fix vs it
      assume "k \<in> set as" "map_of data k = Some vs" "it \<in> set vs" "CHR ''='' \<notin> set it"
      with own_name show ?thesis by blast
    next
      assume "k \<notin> set as" "k \<in> set (map fst data)"
      then obtain vs where "map_of data k = Some vs"
        by (metis map_of_eq_None_iff not_Some_eq set_map)
      with own_name \<open>k \<notin> set as\<close> show ?thesis by blast
    qed
  qed
  from map_of_rev_written [OF w only] show ?thesis
    by (simp add: map_of_result [OF ret])
qed

lemma composite_no_own_entry:
  assumes ret: "result_to_dict data (CList as) = Inr res"
    and comp: "a \<in> set as"
    and vals: "map_of data a = Some vals"
    and all_sep: "\<forall>it\<in>set vals. CHR ''='' \<in> set it"
    and no_key: "\<forall>b\<in>set as. \<forall>vs it v'. map_of data b = Some vs \<longrightarrow> it \<in> set vs \<longrightarrow>
                   \<not> key_value it a v'"
  shows "map_of res a = None"
proof -
  let ?ws = "key_writes data as (map fst data)"
  have "a \<notin> fst ` set ?ws"
  proof
    assume "a \<in> fst ` set ?ws"
    then obtain w where "(a, w) \<in> set ?ws" by auto
    from key_writes_cases [OF this] show False
    proof (elim disjE exE conjE)
      fix key vs it v'
      assume "key \<in> set as" "map_of data key = Some vs" "it \<in> set vs" "key_value it a v'"
      with no_key show False by blast
    next
      fix vs it
      assume "map_of data a = Some vs" "it \<in> set vs" "CHR ''='' \<notin> set it"
      with all_sep vals show False by auto
    next
      assume "a \<notin> set as"
      with comp show False by simp
    qed
  qed
  from map_of_rev_unwritten [OF this] show ?thesis
    by (simp add: map_of_result [OF ret])
qed

text \<open>
  Claim C3, as it holds. Let \<open>a\<close> be an attribute listed in \<open>attrs\<close>, with the
  values \<open>vals\<close>, and let \<^verbatim>\<open>_result_to_dict\<close> return the mapping \<open>res\<close>. Two
  statements hold, each on its own. First, every value \<open>k=v\<close> (one \<open>=\<close>) of \<open>a\<close>
  gives the entry \<open>res[k] = v\<close>, provided that every value of a composite attribute
  with the key \<open>k\<close> carries the same \<open>v\<close> and that no attribute named \<open>k\<close> is
  stored under its own name (it is absent, or it is composite and all its values
  contain \<open>=\<close>). Second, when all values of \<open>a\<close> contain \<open>=\<close> and no value of a
  composite attribute has the key \<open>a\<close>, the result has no entry named \<open>a\<close>; this
  needs no value of \<open>a\<close> whose key is free of collisions.
\<close>

theorem result_to_dict_composite:
  assumes ret: "result_to_dict data (CList as) = Inr res"
    and comp: "a \<in> set as"
    and vals: "map_of data a = Some vals"
  shows "(\<forall>item k v.
            item \<in> set vals \<and> key_value item k v \<and>
            (\<forall>b\<in>set as. \<forall>vs it v'. map_of data b = Some vs \<longrightarrow> it \<in> set vs \<longrightarrow>
               key_value it k v' \<longrightarrow> v' = v) \<and>
            (\<forall>vs. map_of data k = Some vs \<longrightarrow>
               k \<in> set as \<and> (\<forall>it\<in>set vs. CHR ''='' \<in> set it)) \<longrightarrow>
            map_of res k = Some (VStr v)) \<and>
         ((\<forall>it\<in>set vals. CHR ''='' \<in> set it) \<and>
          (\<forall>b\<in>set as. \<forall>vs it v'. map_of data b = Some vs \<longrightarrow> it \<in> set vs \<longrightarrow>
             \<not> key_value it a v') \<longrightarrow>
          map_of res a = None)"
proof (intro conjI allI impI)
  fix item k v
  assume h: "item \<in> set vals \<and> key_value item k v \<and>
            (\<forall>b\<in>set as. \<forall>vs it v'. map_of data b = Some vs \<longrightarrow> it \<in> set vs \<longrightarrow>
               key_value it k v' \<longrightarrow> v' = v) \<and>
            (\<forall>vs. map_of data k = Some vs \<longrightarrow>
               k \<in> set as \<and> (\<forall>it\<in>set vs. CHR ''='' \<in> set it))"
  then have item: "item \<in> set vals" and kv: "key_value item k v"
    and same_key: "\<forall>b\<in>set as. \<forall>vs it v'. map_of data b = Some vs \<longrightarrow> it \<in> set vs \<longrightarrow>
               key_value it k v' \<longrightarrow> v' = v"
    and own_name: "\<forall>vs. map_of data k = Some vs \<longrightarrow>
               k \<in> set as \<and> (\<forall>it\<in>set vs. CHR ''='' \<in> set it)"
    by blast+
  from ret comp vals item kv same_key own_name show "map_of res k = Some (VStr v)"
    by (rule composite_value_entry)
next
  assume h: "(\<forall>it\<in>set vals. CHR ''='' \<in> set it) \<and>
          (\<forall>b\<in>set as. \<forall>vs it v'. map_of data b = Some vs \<longrightarrow> it \<in> set vs \<longrightarrow>
             \<not> key_value it a v')"
  then have all_sep: "\<forall>it\<in>set vals. CHR ''='' \<in> set it"
    and no_key: "\<forall>b\<in>set as. \<forall>vs it v'. map_of data b = Some vs \<longrightarrow> it \<in> set vs \<longrightarrow>
             \<not> key_value it a v'"
    by blast+
  from ret comp vals all_sep no_key show "map_of res a = None"
    by (rule composite_no_own_entry)
qed

text \<open>
  The theorem at the example of the claim, the composite attribute \<open>saltKeyValue\<close>
  with the values \<open>a=1\<close> and \<open>b=2\<close>: both statements apply. And at the composite
  attribute \<open>kv\<close> with the values \<open>a=1\<close> and \<open>a=2\<close>, whose keys collide: the second
  statement applies and the result has no entry named \<open>kv\<close>.
\<close>

theorem result_to_dict_composite_witness:
  "result_to_dict [(''saltKeyValue'', [''a=1'', ''b=2'']), (''cn'', [''host1''])]
       (CList [''saltKeyValue''])
     = Inr [(''a'', VStr ''1''), (''b'', VStr ''2''), (''cn'', VList [''host1''])] \<and>
   map_of [(''a'', VStr ''1''), (''b'', VStr ''2''), (''cn'', VList [''host1''])] ''a''
     = Some (VStr ''1'') \<and>
   map_of [(''a'', VStr ''1''), (''b'', VStr ''2''), (''cn'', VList [''host1''])] ''b''
     = Some (VStr ''2'') \<and>
   map_of [(''a'', VStr ''1''), (''b'', VStr ''2''), (''cn'', VList [''host1''])] ''saltKeyValue''
     = None \<and>
   result_to_dict [(''kv'', [''a=1'', ''a=2''])] (CList [''kv'']) = Inr [(''a'', VStr ''2'')] \<and>
   map_of [(''a'', VStr ''2'')] ''kv'' = None"
proof -
  let ?data = "[(''saltKeyValue'', [''a=1'', ''b=2'']), (''cn'', [''host1''])]"
  let ?res = "[(''a'', VStr ''1''), (''b'', VStr ''2''), (''cn'', VList [''host1''])]"
  have ret: "result_to_dict ?data (CList [''saltKeyValue'']) = Inr ?res"
    by (simp add: result_to_dict_def data_get_def)
  have comp: "''saltKeyValue'' \<in> set [''saltKeyValue'']" by simp
  have vals: "map_of ?data ''saltKeyValue'' = Some [''a=1'', ''b=2'']" by simp
  note inst = result_to_dict_composite [OF ret comp vals]
  have a1: "''a=1'' \<in> set [''a=1'', ''b=2''] \<and> key_value ''a=1'' ''a'' ''1'' \<and>
      (\<forall>b\<in>set [''saltKeyValue'']. \<forall>vs it v'. map_of ?data b = Some vs \<longrightarrow> it \<in> set vs \<longrightarrow>
         key_value it ''a'' v' \<longrightarrow> v' = ''1'') \<and>
      (\<forall>vs. map_of ?data ''a'' = Some vs \<longrightarrow>
         ''a'' \<in> set [''saltKeyValue''] \<and> (\<forall>it\<in>set vs. CHR ''='' \<in> set it))"
    by (auto simp: str_split_key_value [symmetric])
  have b2: "''b=2'' \<in> set [''a=1'', ''b=2''] \<and> key_value ''b=2'' ''b'' ''2'' \<and>
      (\<forall>b\<in>set [''saltKeyValue'']. \<forall>vs it v'. map_of ?data b = Some vs \<longrightarrow> it \<in> set vs \<longrightarrow>
         key_value it ''b'' v' \<longrightarrow> v' = ''2'') \<and>
      (\<forall>vs. map_of ?data ''b'' = Some vs \<longrightarrow>
         ''b'' \<in> set [''saltKeyValue''] \<and> (\<forall>it\<in>set vs. CHR ''='' \<in> set it))"
    by (auto simp: str_split_key_value [symmetric])
  have own: "(\<forall>it\<in>set [''a=1'', ''b=2'']. CHR ''='' \<in> set it) \<and>
      (\<forall>b\<in>set [''saltKeyValue'']. \<forall>vs it v'. map_of ?data b = Some vs \<longrightarrow> it \<in> set vs \<longrightarrow>
         \<not> key_value it ''saltKeyValue'' v')"
    by (auto simp: str_split_key_value [symmetric])
  from inst a1 have ra: "map_of ?res ''a'' = Some (VStr ''1'')" by blast
  from inst b2 have rb: "map_of ?res ''b'' = Some (VStr ''2'')" by blast
  from inst own have rn: "map_of ?res ''saltKeyValue'' = None" by blast
  let ?data2 = "[(''kv'', [''a=1'', ''a=2''])]"
  have ret2: "result_to_dict ?data2 (CList [''kv'']) = Inr [(''a'', VStr ''2'')]"
    by (simp add: result_to_dict_def data_get_def)
  have comp2: "''kv'' \<in> set [''kv'']" by simp
  have vals2: "map_of ?data2 ''kv'' = Some [''a=1'', ''a=2'']" by simp
  have own2: "(\<forall>it\<in>set [''a=1'', ''a=2'']. CHR ''='' \<in> set it) \<and>
      (\<forall>b\<in>set [''kv'']. \<forall>vs it v'. map_of ?data2 b = Some vs \<longrightarrow> it \<in> set vs \<longrightarrow>
         \<not> key_value it ''kv'' v')"
    by (auto simp: str_split_key_value [symmetric])
  from result_to_dict_composite [OF ret2 comp2 vals2] own2
  have rn2: "map_of [(''a'', VStr ''2'')] ''kv'' = None" by blast
  from ret ra rb rn ret2 rn2 show ?thesis by blast
qed

text \<open>
  Claim C3 as stated fails where keys collide. Of the values \<open>a=1\<close> and \<open>a=2\<close>
  only the later one is an entry of the result, so \<open>a=1\<close> gives no entry
  \<open>a: 1\<close>; and the value \<open>kv=1\<close> of the composite attribute \<open>kv\<close>, which has
  the form \<open>key=value\<close>, gives an entry named after the attribute itself.
\<close>

theorem result_to_dict_composite_counterexample:
  "result_to_dict [(''kv'', [''a=1'', ''a=2''])] (CList [''kv'']) = Inr [(''a'', VStr ''2'')] \<and>
   map_of [(''a'', VStr ''2'')] ''a'' \<noteq> Some (VStr ''1'') \<and>
   result_to_dict [(''kv'', [''kv=1''])] (CList [''kv'']) = Inr [(''kv'', VStr ''1'')] \<and>
   map_of [(''kv'', VStr ''1'')] ''kv'' \<noteq> None"
  by (simp add: result_to_dict_def data_get_def)

text \<open>
  Claim C8, as it holds. Let \<open>a\<close> be an attribute of \<open>data\<close> that is not listed in
  \<open>attrs\<close>, with the values \<open>vals\<close>, and let \<^verbatim>\<open>_result_to_dict\<close> return the mapping
  \<open>res\<close>. If no value of a composite attribute has the key \<open>a\<close>, then \<open>res\<close>
  maps \<open>a\<close> to the list \<open>vals\<close>, unchanged.
\<close>

theorem result_to_dict_plain:
  assumes ret: "result_to_dict data (CList as) = Inr res"
    and plain: "a \<notin> set as"
    and vals: "map_of data a = Some vals"
    and no_key: "\<forall>b\<in>set as. \<forall>vs it v'. map_of data b = Some vs \<longrightarrow> it \<in> set vs \<longrightarrow> \<not> key_value it a v'"
  shows "map_of res a = Some (VList vals)"
proof -
  let ?ws = "key_writes data as (map fst data)"
  have a_key: "a \<in> set (map fst data)" using vals by (rule map_of_Some_key)
  have "\<exists>key\<in>set (map fst data). (key \<in> set as \<and> (\<exists>vals'. map_of data key = Some vals' \<and>
           (a, VList vals) \<in> set (item_writes data key vals'))) \<or>
        (key \<notin> set as \<and> a = key \<and> VList vals = data_get data key)"
    using a_key plain vals by (intro bexI [of _ a]) (simp_all add: data_get_def)
  then have w: "(a, VList vals) \<in> set ?ws" unfolding in_key_writes .
  have only: "\<forall>w'. (a, w') \<in> set ?ws \<longrightarrow> w' = VList vals"
  proof (intro allI impI)
    fix w' assume "(a, w') \<in> set ?ws"
    from key_writes_cases [OF this] plain no_key vals show "w' = VList vals"
      by (auto simp: data_get_def)
  qed
  from map_of_rev_written [OF w only] show ?thesis
    by (simp add: map_of_result [OF ret])
qed

lemma kv1: "key_value ''ntpserver=ntp.acme.local'' k v \<longleftrightarrow> k = ''ntpserver'' \<and> v = ''ntp.acme.local''"
proof -
  have "str_split (CHR ''='') ''ntpserver=ntp.acme.local'' = [''ntpserver'', ''ntp.acme.local'']"
    by simp
  then show ?thesis unfolding str_split_key_value [symmetric] by auto
qed

text \<open>The theorem at the attribute \<open>cn\<close> with the single value \<open>Alice\<close>.\<close>

theorem result_to_dict_plain_witness:
  "result_to_dict [(''saltKeyValue'', [''ntpserver=ntp.acme.local'']), (''cn'', [''Alice''])]
       (CList [''saltKeyValue''])
     = Inr [(''ntpserver'', VStr ''ntp.acme.local''), (''cn'', VList [''Alice''])] \<and>
   map_of [(''ntpserver'', VStr ''ntp.acme.local''), (''cn'', VList [''Alice''])] ''cn''
     = Some (VList [''Alice''])"
proof -
  let ?data = "[(''saltKeyValue'', [''ntpserver=ntp.acme.local'']), (''cn'', [''Alice''])]"
  have ret: "result_to_dict ?data (CList [''saltKeyValue''])
      = Inr [(''ntpserver'', VStr ''ntp.acme.local''), (''cn'', VList [''Alice''])]"
    by (simp add: result_to_dict_def data_get_def)
  have plain: "''cn'' \<notin> set [''saltKeyValue'']" by simp
  have vals: "map_of ?data ''cn'' = Some [''Alice'']" by simp
  have no_key: "\<forall>b\<in>set [''saltKeyValue'']. \<forall>vs it v'. map_of ?data b = Some vs \<longrightarrow>
      it \<in> set vs \<longrightarrow> \<not> key_value it ''cn'' v'"
    by (simp add: kv1)
  from result_to_dict_plain [OF ret plain vals no_key] ret show ?thesis by (rule conjI [rotated])
qed

text \<open>
  Claim C8 as stated fails when a composite value has the name of a plain attribute as
  its key: \<open>mail\<close> is not listed in \<open>attrs\<close> and has the value list
  \<open>[alice@x.com]\<close>, but the value \<open>mail=bob@x.com\<close> of the composite attribute
  \<open>kv\<close>, visited after it, replaces the list by the string \<open>bob@x.com\<close>.
\<close>

theorem result_to_dict_plain_counterexample:
  "result_to_dict [(''mail'', [''alice@x.com'']), (''kv'', [''mail=bob@x.com''])] (CList [''kv''])
     = Inr [(''mail'', VStr ''bob@x.com'')] \<and>
   map_of [(''mail'', VStr ''bob@x.com'')] ''mail'' \<noteq> Some (VList [''alice@x.com''])"
  by (simp add: result_to_dict_def data_get_def)

section \<open>Evaluating the example\<close>

lemma example_conf_attrs: "config ''attrs'' (example_conf name) = CList [''saltKeyValue'']"
  by (simp add: example_conf_def config_def)

lemma example_ldap_search: "ldap_search (example_env order) = example_search"
  by (simp add: example_env_def)

lemma raw_search_down: "raw_search (example_env order) (example_conf ''down'') (CStr ''(cn=down)'')
    = Inl (LibraryError ''SERVER_DOWN'')"
  by (simp add: raw_search_def example_ldap_search example_search_def)

lemma example_isfile: "isfile (example_env order) example_path"
  by (simp add: example_env_def example_path_def)

lemma example_load: "load_config (example_env order) example_path = Inr (example_opts order)"
  by (simp add: example_env_def)

lemma example_order:
  "map_of (AList.update ''conf_file'' (OVal (CStr example_path)) (example_opts order)) ''search_order''
     = Some (OVal (CList order))"
  by (simp add: update_conv' example_opts_def)

lemma example_source_defaults:
  "source_result (example_env order)
     (AList.update ''conf_file'' (OVal (CStr example_path)) (example_opts order)) ''defaults''
   = Inr [(''ntpserver'', VStr ''ntp.default.local'')]"
  by (simp add: source_result_def update_conv' example_opts_def do_search_def example_conf_def
      raw_search_def example_ldap_search example_search_def first_attrs_def config_def
      result_to_dict_def data_get_def)

lemma example_source_site:
  "source_result (example_env order)
     (AList.update ''conf_file'' (OVal (CStr example_path)) (example_opts order)) ''site''
   = Inr [(''ntpserver'', VStr ''ntp.site.local'')]"
  by (simp add: source_result_def update_conv' example_opts_def do_search_def example_conf_def
      raw_search_def example_ldap_search example_search_def first_attrs_def config_def
      result_to_dict_def data_get_def)

lemma example_source_host1:
  "source_result (example_env order)
     (AList.update ''conf_file'' (OVal (CStr example_path)) (example_opts order)) ''host1''
   = Inr [(''ntpserver'', VStr ''ntp.acme.local''), (''role'', VStr ''web''),
          (''cn'', VList [''host1''])]"
  by (simp add: source_result_def update_conv' example_opts_def do_search_def example_conf_def
      raw_search_def example_ldap_search example_search_def first_attrs_def config_def
      result_to_dict_def data_get_def)

lemma example_raw_bad:
  "raw_search (example_env order) (example_conf ''bad'') (CStr ''(cn=bad)'')
     = Inr [(''saltKeyValue'', [''a=b=c''])]"
  by (simp add: raw_search_def example_ldap_search example_search_def first_attrs_def)

section \<open>Searching one source\<close>

text \<open>
  Claim C6 asks that \<^verbatim>\<open>_do_search\<close> raise the invocation error \<open>missing filter\<close>
  for every search specification without the key \<open>filter\<close>. The code does not:
  the name \<open>SaltInvocationError\<close> is not bound in the module, so evaluating the
  \<^verbatim>\<open>raise\<close> statement raises \<open>NameError\<close> instead, for every such specification.
\<close>

theorem do_search_missing_filter:
  "map_of conf ''filter'' = None \<Longrightarrow> do_search env conf = Inl (NameError ''SaltInvocationError'')"
  by (simp add: do_search_def raise_SaltInvocationError_def module_names_def)

text \<open>The theorem at a specification that has only a base distinguished name.\<close>

theorem do_search_missing_filter_witness:
  "map_of [(''dn'', CStr ''ou=hosts,o=acme'')] ''filter'' = None \<and>
   do_search (example_env []) [(''dn'', CStr ''ou=hosts,o=acme'')]
     = Inl (NameError ''SaltInvocationError'')"
proof -
  have h: "map_of [(''dn'', CStr ''ou=hosts,o=acme'')] ''filter'' = None" by simp
  from do_search_missing_filter [OF h] h show ?thesis by (rule conjI [rotated])
qed

text \<open>
  Claim C7. When the search expression of a source raises an exception \<open>e\<close>, whatever
  \<open>e\<close> is, \<^verbatim>\<open>_do_search\<close> returns the empty mapping for that source, and the loop of
  \<^verbatim>\<open>ext_pillar\<close> goes on with the remaining sources and the accumulator unchanged.
\<close>

theorem do_search_search_raises:
  assumes flt: "map_of conf ''filter'' = Some f"
    and raises: "raw_search env conf f = Inl e"
    and src: "map_of opts source = Some (OConf conf)"
  shows "do_search env conf = Inr [] \<and>
         sources_loop env opts (source # sources) data = sources_loop env opts sources data"
proof -
  from flt raises have ds: "do_search env conf = Inr []" by (simp add: do_search_def)
  with src have "source_result env opts source = Inr []" by (simp add: source_result_def)
  then have "sources_loop env opts (source # sources) data = sources_loop env opts sources data"
    by simp
  with ds show ?thesis by simp
qed

text \<open>The theorem at the source \<open>down\<close>, whose search fails because the server is down.\<close>

theorem do_search_search_raises_witness:
  "do_search (example_env [''down'', ''host1'']) (example_conf ''down'') = Inr [] \<and>
   sources_loop (example_env [''down'', ''host1'']) (example_opts [''down'', ''host1''])
       [''down'', ''host1''] []
     = sources_loop (example_env [''down'', ''host1'']) (example_opts [''down'', ''host1''])
         [''host1''] []"
proof -
  have flt: "map_of (example_conf ''down'') ''filter'' = Some (CStr ''(cn=down)'')"
    by (simp add: example_conf_def)
  have src: "map_of (example_opts [''down'', ''host1'']) ''down'' = Some (OConf (example_conf ''down''))"
    by (simp add: example_opts_def)
  from do_search_search_raises [OF flt raw_search_down src] show ?thesis .
qed

text \<open>
  Claim C9. When the search of a specification succeeds and the attribute mapping of
  its first matched entry is empty, \<^verbatim>\<open>_do_search\<close> raises \<open>UnboundLocalError\<close> for
  the local variable \<open>result\<close>, which was never assigned; it does not return an empty
  mapping.
\<close>

theorem do_search_empty_entry:
  assumes flt: "map_of conf ''filter'' = Some f"
    and found: "ldap_search env f (config ''dn'' conf) (config ''scope'' conf)
                  (config ''attrs'' conf) (search_connargs conf) = Inr r"
    and empty: "results r = (d, []) # others"
  shows "do_search env conf = Inl (UnboundLocalError ''result'')"
proof -
  from found empty have "raw_search env conf f = Inr []"
    by (simp add: raw_search_def first_attrs_def)
  with flt show ?thesis by (simp add: do_search_def)
qed

text \<open>The theorem at the source \<open>empty\<close>, whose entry has no attributes.\<close>

theorem do_search_empty_entry_witness:
  "do_search (example_env []) (example_conf ''empty'') = Inl (UnboundLocalError ''result'')"
proof -
  have flt: "map_of (example_conf ''empty'') ''filter'' = Some (CStr ''(cn=empty)'')"
    by (simp add: example_conf_def)
  have found: "ldap_search (example_env []) (CStr ''(cn=empty)'') (config ''dn'' (example_conf ''empty''))
      (config ''scope'' (example_conf ''empty'')) (config ''attrs'' (example_conf ''empty''))
      (search_connargs (example_conf ''empty''))
      = Inr \<lparr>results = [(''cn=empty,ou=hosts,o=acme'', [])]\<rparr>"
    by (simp add: example_ldap_search example_search_def)
  have empty: "results \<lparr>results = [(''cn=empty,ou=hosts,o=acme'', [])]\<rparr>
      = (''cn=empty,ou=hosts,o=acme'', []) # []" by simp
  from do_search_empty_entry [OF flt found empty] show ?thesis .
qed

section \<open>A composite value with two or more separators\<close>

lemma items_loop_error: "items_loop data key items r = Inl e \<Longrightarrow> e = ValueError"
proof (induction items arbitrary: r)
  case Nil
  then show ?case by simp
next
  case (Cons item items)
  then show ?case by (auto split: if_splits list.splits)
qed

lemma items_loop_bad:
  assumes "item \<in> set items" and "2 \<le> count_list item (CHR ''='')"
  shows "items_loop data key items r = Inl ValueError"
  using assms(1)
proof (induction items arbitrary: r)
  case Nil
  then show ?case by simp
next
  case (Cons x xs)
  show ?case
  proof (cases "x = item")
    case True
    from assms(2) have len: "3 \<le> length (str_split (CHR ''='') item)"
      by (simp add: length_str_split)
    from assms(2) have "count_list item (CHR ''='') \<noteq> 0" by simp
    then have mem: "CHR ''='' \<in> set item" by (simp add: count_list_0_iff)
    from len show ?thesis
      by (auto simp: True mem split: list.splits)
  next
    case False
    with Cons.prems have "item \<in> set xs" by simp
    from Cons.IH [OF this] show ?thesis
      by (simp split: list.splits)
  qed
qed

lemma keys_loop_bad:
  assumes comp: "key \<in> set as" and vals: "map_of data key = Some vals"
    and item: "item \<in> set vals" and two: "2 \<le> count_list item (CHR ''='')"
  shows "key \<in> set keys \<Longrightarrow> set keys \<subseteq> set (map fst data) \<Longrightarrow>
         keys_loop data (CList as) keys r = Inl ValueError"
proof (induction keys arbitrary: r)
  case Nil
  then show ?case by simp
next
  case (Cons x xs)
  from Cons.prems(2) have sub: "set xs \<subseteq> set (map fst data)" by simp
  from Cons.prems(2) have "x \<in> fst ` set data" by simp
  then obtain xvals where xvals: "map_of data x = Some xvals"
    by (metis map_of_eq_None_iff not_Some_eq)
  show ?case
  proof (cases "x = key")
    case True
    from items_loop_bad [OF item two] have "items_loop data key vals r = Inl ValueError" .
    with comp vals True show ?thesis by simp
  next
    case False
    with Cons.prems(1) have k: "key \<in> set xs" by simp
    note ih = Cons.IH [OF k sub]
    show ?thesis
    proof (cases "x \<in> set as")
      case True
      show ?thesis
      proof (cases "items_loop data x xvals r")
        case (Inl e)
        with items_loop_error [OF Inl] True xvals show ?thesis by simp
      next
        case (Inr r1)
        with True xvals ih show ?thesis by simp
      qed
    next
      case False
      with ih show ?thesis by simp
    qed
  qed
qed

lemma result_to_dict_bad:
  assumes comp: "key \<in> set as" and vals: "map_of data key = Some vals"
    and item: "item \<in> set vals" and two: "2 \<le> count_list item (CHR ''='')"
  shows "result_to_dict data (CList as) = Inl ValueError"
proof -
  from comp have "as \<noteq> []" by auto
  then have norm: "(if \<not> truthy (CList as) then CList [] else CList as) = CList as" by simp
  have k: "key \<in> set (map fst data)" using vals by (rule map_of_Some_key)
  from keys_loop_bad [OF comp vals item two k subset_refl]
  show ?thesis unfolding result_to_dict_def norm .
qed

lemma sources_loop_abort:
  "s \<in> set sources \<Longrightarrow> source_result env opts s = Inl e \<Longrightarrow>
   \<exists>e'. sources_loop env opts sources data = Inl e'"
proof (induction sources arbitrary: data)
  case Nil
  then show ?case by simp
next
  case (Cons x xs)
  show ?case
  proof (cases "source_result env opts x")
    case (Inl e1)
    then show ?thesis by simp
  next
    case (Inr r)
    with Cons.prems have "s \<in> set xs" by auto
    from Cons.IH [OF this Cons.prems(2)] Inr show ?thesis by simp
  qed
qed

lemma ext_pillar_loaded:
  assumes "isfile env path" and "load_config env path = Inr loaded"
    and "map_of (AList.update ''conf_file'' (OVal (CStr path)) loaded) ''search_order''
           = Some (OVal (CList order))"
  shows "ext_pillar env path
           = sources_loop env (AList.update ''conf_file'' (OVal (CStr path)) loaded) order []"
  using assms by (simp add: ext_pillar_def)

text \<open>
  Claim C10. When a value of an attribute listed as composite contains two or more
  \<open>=\<close>, \<^verbatim>\<open>_result_to_dict\<close> raises the unpacking error \<open>ValueError\<close>; when the
  search of a source finds these attributes, the error propagates through
  \<^verbatim>\<open>_do_search\<close>, and \<^verbatim>\<open>ext_pillar\<close> raises for every search order that contains
  the source.
\<close>

theorem composite_value_two_equals:
  assumes comp: "key \<in> set as" and vals: "map_of data key = Some vals"
    and item: "item \<in> set vals" and two: "2 \<le> count_list item (CHR ''='')"
    and flt: "map_of conf ''filter'' = Some f"
    and attrs: "config ''attrs'' conf = CList as"
    and found: "raw_search env conf f = Inr data"
    and exists: "isfile env path" "load_config env path = Inr loaded"
    and opts: "opts = AList.update ''conf_file'' (OVal (CStr path)) loaded"
    and order: "map_of opts ''search_order'' = Some (OVal (CList order))"
    and src: "source \<in> set order" "map_of opts source = Some (OConf conf)"
  shows "result_to_dict data (CList as) = Inl ValueError \<and>
         do_search env conf = Inl ValueError \<and>
         (\<exists>e. ext_pillar env path = Inl e)"
proof -
  have rtd: "result_to_dict data (CList as) = Inl ValueError"
    using comp vals item two by (rule result_to_dict_bad)
  from vals have "data \<noteq> []" by auto
  with flt attrs found rtd have ds: "do_search env conf = Inl ValueError"
    by (simp add: do_search_def)
  with src(2) have sr: "source_result env opts source = Inl ValueError"
    by (simp add: source_result_def)
  from exists order have "ext_pillar env path = sources_loop env opts order []"
    unfolding opts by (rule ext_pillar_loaded)
  with sources_loop_abort [OF src(1) sr] have "\<exists>e. ext_pillar env path = Inl e" by simp
  with rtd ds show ?thesis by simp
qed

text \<open>The theorem at the source \<open>bad\<close>, whose composite value is \<open>a=b=c\<close>.\<close>

theorem composite_value_two_equals_witness:
  "result_to_dict [(''saltKeyValue'', [''a=b=c''])] (CList [''saltKeyValue'']) = Inl ValueError \<and>
   do_search (example_env [''host1'', ''bad'']) (example_conf ''bad'') = Inl ValueError \<and>
   (\<exists>e. ext_pillar (example_env [''host1'', ''bad'']) example_path = Inl e)"
proof -
  have comp: "''saltKeyValue'' \<in> set [''saltKeyValue'']" by simp
  have vals: "map_of [(''saltKeyValue'', [''a=b=c''])] ''saltKeyValue'' = Some [''a=b=c'']" by simp
  have item: "''a=b=c'' \<in> set [''a=b=c'']" by simp
  have two: "2 \<le> count_list ''a=b=c'' (CHR ''='')" by simp
  have flt: "map_of (example_conf ''bad'') ''filter'' = Some (CStr ''(cn=bad)'')"
    by (simp add: example_conf_def)
  have src: "''bad'' \<in> set [''host1'', ''bad'']" by simp
  have conf: "map_of (AList.update ''conf_file'' (OVal (CStr example_path))
      (example_opts [''host1'', ''bad''])) ''bad'' = Some (OConf (example_conf ''bad''))"
    by (simp add: update_conv' example_opts_def)
  from composite_value_two_equals [OF comp vals item two flt example_conf_attrs example_raw_bad
      example_isfile example_load refl example_order src conf]
  show ?thesis .
qed

section \<open>Merging the sources\<close>

text \<open>
  Claim C5 asks that \<^verbatim>\<open>ext_pillar\<close> return an empty mapping, without an error, for
  every path that names no existing file. The code does not: the local variable \<open>opts\<close>
  is assigned only in the branch of an existing file, and reading
  \<^verbatim>\<open>opts['search_order']\<close> raises \<open>UnboundLocalError\<close> for every such path.
\<close>

theorem ext_pillar_missing_file:
  "\<not> isfile env config_file \<Longrightarrow> ext_pillar env config_file = Inl (UnboundLocalError ''opts'')"
  by (simp add: ext_pillar_def)

text \<open>The theorem at a path that the example file system does not have.\<close>

theorem ext_pillar_missing_file_witness:
  "\<not> isfile (example_env []) ''/no/such/file'' \<and>
   ext_pillar (example_env []) ''/no/such/file'' = Inl (UnboundLocalError ''opts'')"
proof -
  have h: "\<not> isfile (example_env []) ''/no/such/file''" by (simp add: example_env_def example_path_def)
  from ext_pillar_missing_file [OF h] h show ?thesis by (rule conjI [rotated])
qed

lemma dict_update_assign: "dict_update data result = assign_all result data"
  by (simp add: dict_update_def assign_all_def)

lemma map_of_rev_distinct: "distinct (map fst xs) \<Longrightarrow> map_of (rev xs) = map_of xs"
  by (rule ext) (metis distinct_rev map_of_eq_Some_iff map_of_eq_None_iff not_Some_eq rev_map set_rev)

lemma map_of_dict_update:
  "distinct (map fst result) \<Longrightarrow>
   map_of (dict_update data result) k
     = (case map_of result k of None \<Rightarrow> map_of data k | Some v \<Rightarrow> Some v)"
  by (simp add: dict_update_assign map_of_assign_all map_of_rev_distinct)

lemma items_loop_distinct:
  "items_loop data key items r = Inr r' \<Longrightarrow> distinct (map fst r) \<Longrightarrow> distinct (map fst r')"
proof (induction items arbitrary: r)
  case Nil
  then show ?case by simp
next
  case (Cons item items)
  show ?case
  proof (cases "CHR ''='' \<in> set item")
    case True
    with Cons.prems(1) obtain k v where
      rest: "items_loop data key items (AList.update k (VStr v) r) = Inr r'"
      by (auto split: list.splits)
    from Cons.IH [OF rest] Cons.prems(2) show ?thesis by (simp add: distinct_update)
  next
    case False
    with Cons.prems(1) have
      rest: "items_loop data key items (AList.update key (data_get data key) r) = Inr r'"
      by simp
    from Cons.IH [OF rest] Cons.prems(2) show ?thesis by (simp add: distinct_update)
  qed
qed

lemma keys_loop_distinct:
  "keys_loop data attrs keys r = Inr r' \<Longrightarrow> distinct (map fst r) \<Longrightarrow> distinct (map fst r')"
proof (induction keys arbitrary: r)
  case Nil
  then show ?case by simp
next
  case (Cons key keys)
  show ?case
  proof (cases "py_in key attrs")
    case (Inl e)
    with Cons.prems(1) show ?thesis by simp
  next
    case (Inr b)
    show ?thesis
    proof (cases b)
      case True
      with Inr Cons.prems(1) obtain vals r1 where
        inner: "items_loop data key vals r = Inr r1" and
        rest: "keys_loop data attrs keys r1 = Inr r'"
        by (auto split: option.splits sum.splits)
      from items_loop_distinct [OF inner Cons.prems(2)] Cons.IH [OF rest] show ?thesis by simp
    next
      case False
      with Inr Cons.prems(1) have
        rest: "keys_loop data attrs keys (AList.update key (data_get data key) r) = Inr r'"
        by simp
      from Cons.IH [OF rest] Cons.prems(2) show ?thesis by (simp add: distinct_update)
    qed
  qed
qed

lemma do_search_distinct: "do_search env conf = Inr r \<Longrightarrow> distinct (map fst r)"
proof -
  assume a: "do_search env conf = Inr r"
  show ?thesis
  proof (cases "map_of conf ''filter''")
    case None
    with a show ?thesis by (simp add: do_search_def)
  next
    case (Some f)
    show ?thesis
    proof (cases "raw_search env conf f")
      case (Inl e)
      with a Some show ?thesis by (simp add: do_search_def)
    next
      case (Inr raw)
      with a Some have "result_to_dict raw (config ''attrs'' conf) = Inr r"
        by (simp add: do_search_def split: if_splits)
      then show ?thesis
        unfolding result_to_dict_def by (rule keys_loop_distinct) simp
    qed
  qed
qed

lemma source_result_distinct: "source_result env opts s = Inr r \<Longrightarrow> distinct (map fst r)"
  by (auto simp: source_result_def split: option.splits oval.splits dest: do_search_distinct)

lemma sources_loop_append:
  "sources_loop env opts (xs @ ys) data
     = (case sources_loop env opts xs data of
          Inl e \<Rightarrow> Inl e
        | Inr data' \<Rightarrow> sources_loop env opts ys data')"
  by (induction xs arbitrary: data) (auto split: sum.splits)

lemma sources_loop_returns:
  "\<forall>s\<in>set sources. \<exists>r. source_result env opts s = Inr r \<Longrightarrow>
   \<exists>data'. sources_loop env opts sources data = Inr data'"
proof (induction sources arbitrary: data)
  case Nil
  then show ?case by simp
next
  case (Cons x xs)
  then obtain r where r: "source_result env opts x = Inr r" by auto
  from Cons.prems have "\<forall>s\<in>set xs. \<exists>r. source_result env opts s = Inr r" by simp
  from Cons.IH [OF this] r show ?case by simp
qed

lemma sources_loop_unwritten:
  "sources_loop env opts sources data = Inr data' \<Longrightarrow>
   \<forall>s\<in>set sources. \<forall>r. source_result env opts s = Inr r \<longrightarrow> map_of r k = None \<Longrightarrow>
   map_of data' k = map_of data k"
proof (induction sources arbitrary: data)
  case Nil
  then show ?case by simp
next
  case (Cons x xs)
  from Cons.prems(1) obtain r where r: "source_result env opts x = Inr r"
    and rest: "sources_loop env opts xs (if r \<noteq> [] then dict_update data r else data) = Inr data'"
    by (auto split: sum.splits)
  from Cons.prems(2) r have none: "map_of r k = None" by simp
  from Cons.prems(2) have "\<forall>s\<in>set xs. \<forall>r. source_result env opts s = Inr r \<longrightarrow> map_of r k = None"
    by simp
  from Cons.IH [OF rest this] have "map_of data' k = map_of (if r \<noteq> [] then dict_update data r else data) k" .
  also have "\<dots> = map_of data k"
    using none by (simp add: map_of_dict_update [OF source_result_distinct [OF r]])
  finally show ?case .
qed

text \<open>
  Claim C4, as it holds. Let every source of the search order return a mapping, let
  \<open>s1\<close> come before \<open>s2\<close> in the order, let both produce the key \<open>k\<close>, and let
  \<open>s2\<close> be the last source of the order that produces \<open>k\<close>. Then \<^verbatim>\<open>ext_pillar\<close>
  returns a mapping, and its value for \<open>k\<close> is the value of \<open>s2\<close>.
\<close>

theorem ext_pillar_last_source_wins:
  assumes exists: "isfile env path" "load_config env path = Inr loaded"
    and opts: "opts = AList.update ''conf_file'' (OVal (CStr path)) loaded"
    and order: "map_of opts ''search_order'' = Some (OVal (CList (before @ s2 # after)))"
    and all_return: "\<forall>s\<in>set (before @ s2 # after). \<exists>r. source_result env opts s = Inr r"
    and s1: "s1 \<in> set before" "source_result env opts s1 = Inr r1" "map_of r1 k = Some v1"
    and s2: "source_result env opts s2 = Inr r2" "map_of r2 k = Some v2"
    and last: "\<forall>s\<in>set after. \<forall>r. source_result env opts s = Inr r \<longrightarrow> map_of r k = None"
  shows "\<exists>final. ext_pillar env path = Inr final \<and> map_of final k = Some v2"
proof -
  have ep: "ext_pillar env path = sources_loop env opts (before @ s2 # after) []"
    using exists order unfolding opts by (rule ext_pillar_loaded)
  from sources_loop_returns [OF all_return] obtain final where
    fin: "sources_loop env opts (before @ s2 # after) [] = Inr final" by blast
  then obtain d1 where d1: "sources_loop env opts before [] = Inr d1"
    and rest: "sources_loop env opts (s2 # after) d1 = Inr final"
    by (auto simp: sources_loop_append split: sum.splits)
  from s2(2) have ne: "r2 \<noteq> []" by auto
  from rest s2(1) ne have tail: "sources_loop env opts after (dict_update d1 r2) = Inr final"
    by simp
  from sources_loop_unwritten [OF tail last]
  have "map_of final k = map_of (dict_update d1 r2) k" .
  also have "\<dots> = Some v2"
    using s2(2) by (simp add: map_of_dict_update [OF source_result_distinct [OF s2(1)]])
  finally have "map_of final k = Some v2" .
  with ep fin show ?thesis by simp
qed

text \<open>The theorem at the search order \<open>defaults\<close>, \<open>host1\<close>; both produce \<open>ntpserver\<close>.\<close>

theorem ext_pillar_last_source_wins_witness:
  "\<exists>final. ext_pillar (example_env [''defaults'', ''host1'']) example_path = Inr final \<and>
     map_of final ''ntpserver'' = Some (VStr ''ntp.acme.local'')"
proof -
  let ?env = "example_env [''defaults'', ''host1'']"
  let ?opts = "AList.update ''conf_file'' (OVal (CStr example_path))
                 (example_opts [''defaults'', ''host1''])"
  have order: "map_of ?opts ''search_order'' = Some (OVal (CList ([''defaults''] @ ''host1'' # [])))"
    by (simp add: example_order)
  have all_return: "\<forall>s\<in>set ([''defaults''] @ ''host1'' # []). \<exists>r. source_result ?env ?opts s = Inr r"
    by (simp add: example_source_defaults example_source_host1)
  have s1: "''defaults'' \<in> set [''defaults'']" by simp
  have v1: "map_of [(''ntpserver'', VStr ''ntp.default.local'')] ''ntpserver''
      = Some (VStr ''ntp.default.local'')" by simp
  have v2: "map_of [(''ntpserver'', VStr ''ntp.acme.local''), (''role'', VStr ''web''),
          (''cn'', VList [''host1''])] ''ntpserver'' = Some (VStr ''ntp.acme.local'')" by simp
  have last: "\<forall>s\<in>set []. \<forall>r. source_result ?env ?opts s = Inr r \<longrightarrow> map_of r ''ntpserver'' = None"
    by simp
  from ext_pillar_last_source_wins [OF example_isfile example_load refl order all_return
      s1 example_source_defaults v1 example_source_host1 v2 last]
  show ?thesis .
qed

text \<open>
  Claim C4 as stated fails when a third source produces the key: in the search order
  \<open>defaults\<close>, \<open>site\<close>, \<open>host1\<close> the sources \<open>defaults\<close> and \<open>site\<close> both
  produce \<open>ntpserver\<close> and \<open>site\<close> is the later of the two, but the final value is
  that of \<open>host1\<close>, not that of \<open>site\<close>.
\<close>

theorem ext_pillar_last_source_wins_counterexample:
  "ext_pillar (example_env [''defaults'', ''site'', ''host1'']) example_path
     = Inr [(''ntpserver'', VStr ''ntp.acme.local''), (''role'', VStr ''web''),
            (''cn'', VList [''host1''])] \<and>
   source_result (example_env [''defaults'', ''site'', ''host1''])
       (AList.update ''conf_file'' (OVal (CStr example_path))
          (example_opts [''defaults'', ''site'', ''host1''])) ''defaults''
     = Inr [(''ntpserver'', VStr ''ntp.default.local'')] \<and>
   source_result (example_env [''defaults'', ''site'', ''host1''])
       (AList.update ''conf_file'' (OVal (CStr example_path))
          (example_opts [''defaults'', ''site'', ''host1''])) ''site''
     = Inr [(''ntpserver'', VStr ''ntp.site.local'')] \<and>
   VStr ''ntp.acme.local'' \<noteq> VStr ''ntp.site.local''"
proof -
  let ?env = "example_env [''defaults'', ''site'', ''host1'']"
  let ?opts = "AList.update ''conf_file'' (OVal (CStr example_path))
                 (example_opts [''defaults'', ''site'', ''host1''])"
  have "ext_pillar ?env example_path = sources_loop ?env ?opts [''defaults'', ''site'', ''host1''] []"
    using example_isfile example_load example_order by (rule ext_pillar_loaded)
  also have "\<dots> = Inr [(''ntpserver'', VStr ''ntp.acme.local''), (''role'', VStr ''web''),
            (''cn'', VList [''host1''])]"
    by (simp add: example_source_defaults example_source_site example_source_host1 dict_update_def)
  finally show ?thesis
    by (simp add: example_source_defaults example_source_site)
qed

section \<open>The authenticator\<close>

lemma example_render: "render example_ldap (filter_opt default_opts) username = Inr (''emailAddress='' @ username)"
  by (simp add: example_ldap_def)

lemma example_service_bind:
  "LDAPConnection example_ldap (service_connargs default_opts) []
     = (Inr 0, [Initialize ''ldap://localhost:389'', SetOption,
                SimpleBind ''uid=admin,o=acme,c=gb'' ''sssssh''])"
  by (simp add: LDAPConnection_def service_connargs_def default_opts_def example_ldap_def
      example_bind_def)

lemma example_user_bind:
  "fst (LDAPConnection example_ldap
          ((service_connargs default_opts)\<lparr>binddn := ''uid=alice,o=acme,c=gb'', bindpw := password\<rparr>) h)
     = (if password = ''secret'' then Inr 0
        else Inl (CommandExecutionError
               ''Failed to bind to LDAP server localhost:389 as uid=alice,o=acme,c=gb''))"
  by (simp add: LDAPConnection_def service_connargs_def default_opts_def example_ldap_def
      example_bind_def bind_failed_def)

lemma example_search_s:
  "search_s example_ldap h c (basedn default_opts) (scope default_opts) flt = Inr (example_entries flt)"
  by (simp add: example_ldap_def)

lemma LDAPConnection_history:
  assumes "LDAPConnection L a h = (Inr c, h1)"
  shows "h1 = h @ [Initialize (''ldap://'' @ server a @ '':'' @ port a), SetOption]
               @ (if tls a then [StartTLS] else [])
               @ [SimpleBind (binddn a) (bindpw a)]"
  using assms
  by (auto simp: LDAPConnection_def Let_def split: sum.splits option.splits if_splits)

text \<open>
  Claim C1. Let the filter be rendered, the service bind succeed and the search return
  exactly one entry, with the distinguished name \<open>authdn\<close>. Then \<^verbatim>\<open>auth\<close> returns
  \<open>True\<close> if and only if the second connection, which binds as \<open>authdn\<close> with the
  password of the user, succeeds; and whenever that connection raises an exception,
  \<^verbatim>\<open>auth\<close> returns \<open>False\<close> and nothing propagates.
\<close>

theorem auth_single_match:
  assumes rendered: "render L (filter_opt opts) username = Inr flt"
    and bound: "LDAPConnection L (service_connargs opts) h = (Inr c, h1)"
    and found: "search_s L h1 c (basedn opts) (scope opts) flt = Inr [(authdn, attrs)]"
  shows "(fst (auth L opts username password h) = Inr True \<longleftrightarrow>
           (\<exists>c'. fst (LDAPConnection L ((service_connargs opts)\<lparr>binddn := authdn, bindpw := password\<rparr>)
                        (h1 @ [Search (basedn opts) (scope opts) flt])) = Inr c')) \<and>
         (\<forall>e. fst (LDAPConnection L ((service_connargs opts)\<lparr>binddn := authdn, bindpw := password\<rparr>)
                        (h1 @ [Search (basedn opts) (scope opts) flt])) = Inl e \<longrightarrow>
              fst (auth L opts username password h) = Inr False)"
proof -
  let ?second = "LDAPConnection L ((service_connargs opts)\<lparr>binddn := authdn, bindpw := password\<rparr>)
                   (h1 @ [Search (basedn opts) (scope opts) flt])"
  have eq: "auth L opts username password h
      = (case ?second of (Inl e, h3) \<Rightarrow> (Inr False, h3) | (Inr ldap', h3) \<Rightarrow> (Inr True, h3))"
    using rendered bound found by (simp add: auth_def)
  obtain r h3 where second: "?second = (r, h3)" by (cases ?second)
  show ?thesis
  proof (cases r)
    case (Inl e)
    with eq second show ?thesis by simp
  next
    case (Inr c')
    with eq second show ?thesis by simp
  qed
qed

text \<open>
  The theorem at the user \<open>alice\<close>, whose address matches one entry: with her
  password and with a wrong one.
\<close>

theorem auth_single_match_witness:
  "fst (auth example_ldap default_opts ''alice@x.com'' ''secret'' []) = Inr True \<and>
   fst (auth example_ldap default_opts ''alice@x.com'' ''guess'' []) = Inr False"
proof -
  have found: "search_s example_ldap
      [Initialize ''ldap://localhost:389'', SetOption, SimpleBind ''uid=admin,o=acme,c=gb'' ''sssssh'']
      0 (basedn default_opts) (scope default_opts) (''emailAddress='' @ ''alice@x.com'')
      = Inr [(''uid=alice,o=acme,c=gb'', [])]"
    by (simp add: example_search_s example_entries_def)
  note inst = auth_single_match [OF example_render example_service_bind found]
  have yes: "fst (auth example_ldap default_opts ''alice@x.com'' ''secret'' []) = Inr True"
    using inst [of "''secret''"] by (simp add: example_user_bind)
  have no: "fst (auth example_ldap default_opts ''alice@x.com'' ''guess'' []) = Inr False"
    using inst [of "''guess''"] by (simp add: example_user_bind)
  from yes no show ?thesis by (rule conjI)
qed

text \<open>
  Claim C2. Let the filter be rendered, the service bind succeed and the search return
  no entry or more than one. Then \<^verbatim>\<open>auth\<close> returns \<open>False\<close>, and the calls of the
  LDAP library that it has made are those of the service connection, with the one bind
  as \<open>binddn\<close>, and the search: no second bind is attempted.
\<close>

theorem auth_no_single_match:
  assumes rendered: "render L (filter_opt opts) username = Inr flt"
    and bound: "LDAPConnection L (service_connargs opts) h = (Inr c, h1)"
    and found: "search_s L h1 c (basedn opts) (scope opts) flt = Inr result"
    and count: "length result = 0 \<or> 1 < length result"
  shows "auth L opts username password h
           = (Inr False,
              h @ [Initialize (''ldap://'' @ server opts @ '':'' @ port opts), SetOption]
                @ (if tls opts then [StartTLS] else [])
                @ [SimpleBind (binddn opts) (bindpw opts),
                   Search (basedn opts) (scope opts) flt])"
proof -
  have "auth L opts username password h
           = (Inr False, h1 @ [Search (basedn opts) (scope opts) flt])"
    using rendered bound found count by (auto simp: auth_def Let_def)
  with LDAPConnection_history [OF bound] show ?thesis
    by (simp add: service_connargs_def)
qed

text \<open>
  The theorem at an address that matches no entry and at one that matches two entries.
\<close>

theorem auth_no_single_match_witness:
  "auth example_ldap default_opts ''nobody@x.com'' ''secret'' []
     = (Inr False,
        [Initialize ''ldap://localhost:389'', SetOption,
         SimpleBind ''uid=admin,o=acme,c=gb'' ''sssssh'',
         Search ''o=acme,c=gb'' 2 ''emailAddress=nobody@x.com'']) \<and>
   auth example_ldap default_opts ''twin@x.com'' ''secret'' []
     = (Inr False,
        [Initialize ''ldap://localhost:389'', SetOption,
         SimpleBind ''uid=admin,o=acme,c=gb'' ''sssssh'',
         Search ''o=acme,c=gb'' 2 ''emailAddress=twin@x.com''])"
proof -
  have none: "length (example_entries (''emailAddress='' @ ''nobody@x.com'')) = 0
      \<or> 1 < length (example_entries (''emailAddress='' @ ''nobody@x.com''))"
    by (simp add: example_entries_def)
  have two: "length (example_entries (''emailAddress='' @ ''twin@x.com'')) = 0
      \<or> 1 < length (example_entries (''emailAddress='' @ ''twin@x.com''))"
    by (simp add: example_entries_def)
  from auth_no_single_match [OF example_render example_service_bind example_search_s none,
      of "''secret''"]
  have a: "auth example_ldap default_opts ''nobody@x.com'' ''secret'' []
     = (Inr False,
        [Initialize ''ldap://localhost:389'', SetOption,
         SimpleBind ''uid=admin,o=acme,c=gb'' ''sssssh'',
         Search ''o=acme,c=gb'' 2 ''emailAddress=nobody@x.com''])"
    by (simp add: default_opts_def)
  from auth_no_single_match [OF example_render example_service_bind example_search_s two,
      of "''secret''"]
  have b: "auth example_ldap default_opts ''twin@x.com'' ''secret'' []
     = (Inr False,
        [Initialize ''ldap://localhost:389'', SetOption,
         SimpleBind ''uid=admin,o=acme,c=gb'' ''sssssh'',
         Search ''o=acme,c=gb'' 2 ''emailAddress=twin@x.com''])"
    by (simp add: default_opts_def)
  from a b show ?thesis by (rule conjI)
qed

end
